theory Spec2Isabelle
  imports Main
begin

section \<open>JavaScript values and the syntax tree\<close>

text \<open>
  The query engine of \<^verbatim>\<open>src/src/compiler.ts\<close> runs over a TypeScript syntax tree and
  inspects it reflectively (\<^verbatim>\<open>node as any\<close>). A resolved attribute target is therefore
  an arbitrary JavaScript value of the kinds the code distinguishes: \<^verbatim>\<open>null\<close>,
  \<^verbatim>\<open>undefined\<close>, a string, a number, a boolean, an array, or a tree node.

  Nodes are objects with identity and a \<^verbatim>\<open>parent\<close> pointer, so they live in a store and
  are named by references; \<^verbatim>\<open>childNode === node\<close> is equality of references.
  The only objects are nodes and arrays, as the declared parameter types
  (\<^verbatim>\<open>Node | Node[]\<close>, \<^verbatim>\<open>Node | string | number | boolean | null | undefined\<close>) say.
  Numbers are the integral ones (JavaScript numbers are doubles; \<^verbatim>\<open>toString\<close> of an
  integer below \<open>10\<^sup>2\<^sup>1\<close> in magnitude is its decimal numeral). Strings are lists of code
  units.
\<close>

type_synonym ref = nat

datatype exn = TypeError | Thrown string

datatype jsval =
    JNull
  | JUndefined
  | JStr string
  | JNum int
  | JBool bool
  | JArr "jsval list"
  | JNode ref

text \<open>
  A node: \<open>kind\<close> is the name \<^verbatim>\<open>SyntaxKind[node.kind]\<close>, \<open>children\<close> the nodes that
  \<^verbatim>\<open>node.forEachChild\<close> visits, in order, \<open>own\<close> the own properties as
  \<^verbatim>\<open>hasOwnProperty\<close> and \<^verbatim>\<open>target[key]\<close> see them, \<open>fullText\<close> the result of
  \<^verbatim>\<open>node.getFullText()\<close>.
\<close>

record node =
  kind :: string
  parent :: "ref option"
  children :: "ref list"
  own :: "(string \<times> jsval) list"
  fullText :: string

text \<open>
  The store, and the part of the JavaScript runtime the resolver probes with
  \<^verbatim>\<open>typeof target[key] === "function"\<close>: \<open>inherited h target key\<close> is \<open>None\<close> when
  \<^verbatim>\<open>target[key]\<close> is not a function, and otherwise the outcome of
  \<^verbatim>\<open>target[key].call(target)\<close>, a value or a raised error. The tree is read-only during a
  query, so that outcome is a function of the target and the key.
\<close>

record ast =
  node_at :: "ref \<Rightarrow> node"
  inherited :: "jsval \<Rightarrow> string \<Rightarrow> (exn + jsval) option"

subsection \<open>Strings\<close>

definition digit_char :: "nat \<Rightarrow> char" where
  "digit_char d = ''0123456789'' ! d"

function nat_toString :: "nat \<Rightarrow> string" where
  "nat_toString n =
     (if n < 10 then [digit_char n]
      else nat_toString (n div 10) @ [digit_char (n mod 10)])"
  by pat_completeness auto
termination
  by (relation "measure id") auto

declare nat_toString.simps [simp del]

text \<open>\<^verbatim>\<open>Number.prototype.toString\<close> on an integral number.\<close>

definition Number_toString :: "int \<Rightarrow> string" where
  "Number_toString n =
     (if n < 0 then CHR ''-'' # nat_toString (nat (- n)) else nat_toString (nat n))"

definition Boolean_toString :: "bool \<Rightarrow> string" where
  "Boolean_toString b = (if b then ''true'' else ''false'')"

text \<open>
  The relational operators on two strings compare code units lexicographically;
  \<open>js_less a b\<close> is \<^verbatim>\<open>a < b\<close>.
\<close>

fun js_less :: "string \<Rightarrow> string \<Rightarrow> bool" where
  "js_less [] [] = False"
| "js_less [] (y # ys) = True"
| "js_less (x # xs) [] = False"
| "js_less (x # xs) (y # ys) =
     (if (of_char x :: nat) < of_char y then True
      else if (of_char y :: nat) < of_char x then False
      else js_less xs ys)"

fun startsWith :: "string \<Rightarrow> string \<Rightarrow> bool" where
  "startsWith s [] = True"
| "startsWith [] (e # es) = False"
| "startsWith (c # cs) (e # es) = (c = e \<and> startsWith cs es)"

definition endsWith :: "string \<Rightarrow> string \<Rightarrow> bool" where
  "endsWith s e = startsWith (rev s) (rev e)"

fun includes_str :: "string \<Rightarrow> string \<Rightarrow> bool" where
  "includes_str [] e = (e = [])"
| "includes_str (c # cs) e = (startsWith (c # cs) e \<or> includes_str cs e)"

text \<open>\<^verbatim>\<open>String.prototype.trim\<close>: white space and line terminators among the code units.\<close>

definition is_space :: "char \<Rightarrow> bool" where
  "is_space c = (of_char c \<in> {9, 10, 11, 12, 13, 32, 160 :: nat})"

definition trim :: "string \<Rightarrow> string" where
  "trim s = rev (dropWhile is_space (rev (dropWhile is_space s)))"

text \<open>
  \<^verbatim>\<open>String.prototype.substring(start, end)\<close>: both arguments are clamped to
  \<open>[0, length]\<close>, and swapped when the first exceeds the second.
\<close>

definition substring :: "string \<Rightarrow> int \<Rightarrow> int \<Rightarrow> string" where
  "substring s start stop =
     (let len = int (length s);
          a = min (max start 0) len;
          b = min (max stop 0) len;
          lo = min a b;
          hi = max a b
      in take (nat (hi - lo)) (drop (nat lo) s))"

text \<open>\<^verbatim>\<open>String.prototype.split(sep)\<close> for a one-character separator, and \<^verbatim>\<open>join\<close>.\<close>

fun split :: "char \<Rightarrow> string \<Rightarrow> string list" where
  "split sep [] = [[]]"
| "split sep (c # cs) =
     (if c = sep then [] # split sep cs
      else (case split sep cs of
              [] \<Rightarrow> [[c]]
            | w # ws \<Rightarrow> (c # w) # ws))"

fun join :: "string \<Rightarrow> string list \<Rightarrow> string" where
  "join sep [] = []"
| "join sep [w] = w"
| "join sep (w # v # ws) = w @ sep @ join sep (v # ws)"

section \<open>The Value family\<close>

datatype val =
    Boolean bool
  | Identifier string
  | Null
  | Number int
  | String string
  | Undefined

text \<open>
  \<^verbatim>\<open>Value.actualValue\<close>. An array is none of the primitives, so the code reaches
  \<^verbatim>\<open>node.getFullText()\<close>, which an array does not have: a \<^verbatim>\<open>TypeError\<close>.
\<close>

fun Value_actualValue :: "ast \<Rightarrow> jsval \<Rightarrow> exn + string" where
  "Value_actualValue h JNull = Inr ''null''"
| "Value_actualValue h JUndefined = Inr ''undefined''"
| "Value_actualValue h (JStr s) = Inr s"
| "Value_actualValue h (JNum n) = Inr (Number_toString n)"
| "Value_actualValue h (JBool b) = Inr (Boolean_toString b)"
| "Value_actualValue h (JNode r) = Inr (trim (fullText (node_at h r)))"
| "Value_actualValue h (JArr xs) = Inl TypeError"

text \<open>\<^verbatim>\<open>String.actualValue\<close>: \<^verbatim>\<open>value.substring(1, value.length - 1)\<close>.\<close>

definition String_actualValue :: "ast \<Rightarrow> jsval \<Rightarrow> exn + string" where
  "String_actualValue h node =
     (case Value_actualValue h node of
        Inl e \<Rightarrow> Inl e
      | Inr v \<Rightarrow> Inr (substring v 1 (int (length v) - 1)))"

fun actualValue :: "ast \<Rightarrow> val \<Rightarrow> jsval \<Rightarrow> exn + string" where
  "actualValue h (String s) node = String_actualValue h node"
| "actualValue h v node = Value_actualValue h node"

fun expectedValue :: "val \<Rightarrow> string" where
  "expectedValue (Boolean b) = Boolean_toString b"
| "expectedValue (Identifier s) = s"
| "expectedValue Null = ''null''"
| "expectedValue (Number n) = Number_toString n"
| "expectedValue (String s) = s"
| "expectedValue Undefined = ''undefined''"

text \<open>The \<^verbatim>\<open>switch (operator)\<close> of \<^verbatim>\<open>Value.match\<close>, on the two strings.\<close>

definition Value_switch :: "string \<Rightarrow> string \<Rightarrow> string \<Rightarrow> bool" where
  "Value_switch actual expected operator =
     (if operator = ''^='' then startsWith actual expected
      else if operator = ''$='' then endsWith actual expected
      else if operator = ''*='' then includes_str actual expected
      else if operator = ''!='' then actual \<noteq> expected
      else if operator = ''>='' then \<not> js_less actual expected
      else if operator = ''>'' then js_less expected actual
      else if operator = ''<='' then \<not> js_less expected actual
      else if operator = ''<'' then js_less actual expected
      else actual = expected)"

text \<open>The \<^verbatim>\<open>switch (operator)\<close> of the override \<^verbatim>\<open>Number.match\<close>.\<close>

definition Number_switch :: "string \<Rightarrow> string \<Rightarrow> string \<Rightarrow> bool" where
  "Number_switch actual expected operator =
     (if operator = ''!='' then actual \<noteq> expected
      else if operator = ''>='' then \<not> js_less actual expected
      else if operator = ''>'' then js_less expected actual
      else if operator = ''<='' then \<not> js_less expected actual
      else if operator = ''<'' then js_less actual expected
      else actual = expected)"

definition Value_match :: "ast \<Rightarrow> val \<Rightarrow> jsval \<Rightarrow> string \<Rightarrow> exn + bool" where
  "Value_match h v node operator =
     (case actualValue h v node of
        Inl e \<Rightarrow> Inl e
      | Inr actual \<Rightarrow> Inr (Value_switch actual (expectedValue v) operator))"

definition Number_match :: "ast \<Rightarrow> val \<Rightarrow> jsval \<Rightarrow> string \<Rightarrow> exn + bool" where
  "Number_match h v node operator =
     (case actualValue h v node of
        Inl e \<Rightarrow> Inl e
      | Inr actual \<Rightarrow> Inr (Number_switch actual (expectedValue v) operator))"

text \<open>\<^verbatim>\<open>value.match(node, operator)\<close> on a literal: the method of its class.\<close>

fun val_match :: "ast \<Rightarrow> val \<Rightarrow> jsval \<Rightarrow> string \<Rightarrow> exn + bool" where
  "val_match h (Number n) node operator = Number_match h (Number n) node operator"
| "val_match h v node operator = Value_match h v node operator"

section \<open>ArrayValue\<close>

text \<open>
  An \<^verbatim>\<open>ArrayValue\<close> is a chain of literals; both fields are tested for truthiness by
  \<^verbatim>\<open>expectedValue\<close>, so either may be missing.
\<close>

datatype array_value = ArrayValue "val option" "array_value option"

fun ArrayValue_expectedValue :: "array_value \<Rightarrow> val list" where
  "ArrayValue_expectedValue (ArrayValue v r) =
     (case v of None \<Rightarrow> [] | Some x \<Rightarrow> [x]) @
     (case r of None \<Rightarrow> [] | Some r' \<Rightarrow> ArrayValue_expectedValue r')"

definition isArray :: "jsval \<Rightarrow> bool" where
  "isArray v = (case v of JArr xs \<Rightarrow> True | _ \<Rightarrow> False)"

text \<open>
  \<^verbatim>\<open>expected.every(...)\<close> and \<^verbatim>\<open>expected.some(...)\<close> with the callbacks of
  \<^verbatim>\<open>ArrayValue.match\<close>: both stop at the first deciding element, and an error raised
  by an element's \<^verbatim>\<open>match\<close> ends the iteration.
\<close>

fun every_not_equal :: "ast \<Rightarrow> jsval \<Rightarrow> val list \<Rightarrow> exn + bool" where
  "every_not_equal h node [] = Inr True"
| "every_not_equal h node (v # vs) =
     (case val_match h v node ''!='' of
        Inl e \<Rightarrow> Inl e
      | Inr b \<Rightarrow> if b then every_not_equal h node vs else Inr False)"

fun some_equal :: "ast \<Rightarrow> jsval \<Rightarrow> val list \<Rightarrow> exn + bool" where
  "some_equal h node [] = Inr False"
| "some_equal h node (v # vs) =
     (case val_match h v node ''=='' of
        Inl e \<Rightarrow> Inl e
      | Inr b \<Rightarrow> if b then Inr True else some_equal h node vs)"

text \<open>
  The loops of \<^verbatim>\<open>compareNotEqual\<close> and \<^verbatim>\<open>compareEqual\<close>, which run over two arrays
  of one length, position by position.
\<close>

fun compareNotEqual_loop :: "ast \<Rightarrow> jsval list \<Rightarrow> val list \<Rightarrow> exn + bool" where
  "compareNotEqual_loop h (a # as) (e # es) =
     (case val_match h e a ''!='' of
        Inl x \<Rightarrow> Inl x
      | Inr b \<Rightarrow> if b then Inr True else compareNotEqual_loop h as es)"
| "compareNotEqual_loop h as es = Inr False"

definition compareNotEqual :: "ast \<Rightarrow> jsval list \<Rightarrow> val list \<Rightarrow> exn + bool" where
  "compareNotEqual h actual expected =
     (if length expected \<noteq> length actual then Inr True
      else compareNotEqual_loop h actual expected)"

fun compareEqual_loop :: "ast \<Rightarrow> jsval list \<Rightarrow> val list \<Rightarrow> exn + bool" where
  "compareEqual_loop h (a # as) (e # es) =
     (case val_match h e a ''=='' of
        Inl x \<Rightarrow> Inl x
      | Inr b \<Rightarrow> if b then compareEqual_loop h as es else Inr False)"
| "compareEqual_loop h as es = Inr True"

definition compareEqual :: "ast \<Rightarrow> jsval list \<Rightarrow> val list \<Rightarrow> exn + bool" where
  "compareEqual h actual expected =
     (if length expected \<noteq> length actual then Inr False
      else compareEqual_loop h actual expected)"

definition ArrayValue_match :: "ast \<Rightarrow> array_value \<Rightarrow> jsval \<Rightarrow> string \<Rightarrow> exn + bool" where
  "ArrayValue_match h av node operator =
     (let expected = ArrayValue_expectedValue av in
      if operator = ''not_in'' then
        (if isArray node then Inr False else every_not_equal h node expected)
      else if operator = ''in'' then
        (if isArray node then Inr False else some_equal h node expected)
      else if operator = ''!='' then
        (case node of JArr actual \<Rightarrow> compareNotEqual h actual expected | _ \<Rightarrow> Inr False)
      else
        (case node of JArr actual \<Rightarrow> compareEqual h actual expected | _ \<Rightarrow> Inr False))"

section \<open>Attribute: the key-path resolver\<close>

text \<open>\<^verbatim>\<open>!target\<close>: the falsy values.\<close>

fun falsy :: "jsval \<Rightarrow> bool" where
  "falsy JNull = True"
| "falsy JUndefined = True"
| "falsy (JStr s) = (s = [])"
| "falsy (JNum n) = (n = 0)"
| "falsy (JBool b) = (\<not> b)"
| "falsy (JArr xs) = False"
| "falsy (JNode r) = False"

text \<open>
  The own properties: \<open>ownProperty h target key\<close> is \<open>Some v\<close> exactly when
  \<^verbatim>\<open>target.hasOwnProperty(key)\<close>, and then \<open>v\<close> is \<^verbatim>\<open>target[key]\<close>. A node has the
  properties of its record; a string and an array have \<^verbatim>\<open>length\<close> and their indices
  (in canonical decimal form); a number and a boolean have none.
\<close>

definition index_of_key :: "string \<Rightarrow> nat \<Rightarrow> nat option" where
  "index_of_key key n = find (\<lambda>i. nat_toString i = key) [0..<n]"

fun ownProperty :: "ast \<Rightarrow> jsval \<Rightarrow> string \<Rightarrow> jsval option" where
  "ownProperty h (JNode r) key = map_of (own (node_at h r)) key"
| "ownProperty h (JStr s) key =
     (if key = ''length'' then Some (JNum (int (length s)))
      else map_option (\<lambda>i. JStr [s ! i]) (index_of_key key (length s)))"
| "ownProperty h (JArr xs) key =
     (if key = ''length'' then Some (JNum (int (length xs)))
      else map_option (\<lambda>i. xs ! i) (index_of_key key (length xs)))"
| "ownProperty h v key = None"

text \<open>
  The callback of \<^verbatim>\<open>this.key.split('.').forEach\<close> in \<^verbatim>\<open>getTargetNode\<close>, as a function
  from the target before the segment to the target after it.
\<close>

definition resolveSegment :: "ast \<Rightarrow> jsval \<Rightarrow> string \<Rightarrow> exn + jsval" where
  "resolveSegment h target key =
     (if falsy target then Inr target
      else (case ownProperty h target key of
              Some v \<Rightarrow> Inr v
            | None \<Rightarrow>
                (case inherited h target key of
                   Some outcome \<Rightarrow> outcome
                 | None \<Rightarrow> Inr JNull)))"

fun resolveSegments :: "ast \<Rightarrow> jsval \<Rightarrow> string list \<Rightarrow> exn + jsval" where
  "resolveSegments h target [] = Inr target"
| "resolveSegments h target (key # keys) =
     (case resolveSegment h target key of
        Inl e \<Rightarrow> Inl e
      | Inr target' \<Rightarrow> resolveSegments h target' keys)"

definition getTargetNode :: "ast \<Rightarrow> string \<Rightarrow> jsval \<Rightarrow> exn + jsval" where
  "getTargetNode h key node = resolveSegments h node (split CHR ''.'' key)"

section \<open>Selectors\<close>

datatype selector = Selector "simple_selector option" "string option"
and simple_selector = SimpleSelector string "attribute_list option"
and attribute_list = AttributeList attribute "attribute_list option"
and attribute = Attribute string attribute_value string
and attribute_value = ValueOf val | ArrayValueOf array_value | SelectorOf selector

fun relationship :: "selector \<Rightarrow> string option" where
  "relationship (Selector s r) = r"

text \<open>
  The four \<^verbatim>\<open>match\<close> methods. \<^verbatim>\<open>Attribute.match\<close> hands the resolved target, whatever
  it is, to its value's \<^verbatim>\<open>match\<close>, and that value may be a \<^verbatim>\<open>Selector\<close>; so the
  argument is any value. \<^verbatim>\<open>SimpleSelector.match\<close> reads \<^verbatim>\<open>node.kind\<close>: on
  \<^verbatim>\<open>null\<close> and \<^verbatim>\<open>undefined\<close> that raises, on the other values that are not nodes it
  is \<^verbatim>\<open>undefined\<close>, which no type name equals.
\<close>

fun Selector_match :: "ast \<Rightarrow> selector \<Rightarrow> jsval \<Rightarrow> exn + bool"
and SimpleSelector_match :: "ast \<Rightarrow> simple_selector \<Rightarrow> jsval \<Rightarrow> exn + bool"
and AttributeList_match :: "ast \<Rightarrow> attribute_list \<Rightarrow> jsval \<Rightarrow> exn + bool"
and Attribute_match :: "ast \<Rightarrow> attribute \<Rightarrow> jsval \<Rightarrow> exn + bool"
and attribute_value_match :: "ast \<Rightarrow> attribute_value \<Rightarrow> jsval \<Rightarrow> string \<Rightarrow> exn + bool"
where
  "Selector_match h (Selector s r) node =
     (case s of None \<Rightarrow> Inr True | Some simple \<Rightarrow> SimpleSelector_match h simple node)"
| "SimpleSelector_match h (SimpleSelector nodeType attributeList) node =
     (case node of
        JNull \<Rightarrow> Inl TypeError
      | JUndefined \<Rightarrow> Inl TypeError
      | JNode r \<Rightarrow>
          (if nodeType = kind (node_at h r) then
             (case attributeList of
                None \<Rightarrow> Inr True
              | Some attrs \<Rightarrow> AttributeList_match h attrs node)
           else Inr False)
      | _ \<Rightarrow> Inr False)"
| "AttributeList_match h (AttributeList a rest) node =
     (case Attribute_match h a node of
        Inl e \<Rightarrow> Inl e
      | Inr b \<Rightarrow>
          (if b then
             (case rest of None \<Rightarrow> Inr True | Some attrs \<Rightarrow> AttributeList_match h attrs node)
           else Inr False))"
| "Attribute_match h (Attribute key v operator) node =
     (case getTargetNode h key node of
        Inl e \<Rightarrow> Inl e
      | Inr target \<Rightarrow> attribute_value_match h v target operator)"
| "attribute_value_match h (ValueOf v) target operator = val_match h v target operator"
| "attribute_value_match h (ArrayValueOf av) target operator = ArrayValue_match h av target operator"
| "attribute_value_match h (SelectorOf s) target operator = Selector_match h s target"

section \<open>Selector: traversal and relationships\<close>

text \<open>
  \<^verbatim>\<open>node.forEachChild(callback)\<close> with a callback that updates the variables it closes
  over (the state \<open>s\<close>) and may raise. None of the callbacks in the code returns a
  value, so the iteration never stops early.
\<close>

fun forEach :: "ref list \<Rightarrow> (ref \<Rightarrow> 's \<Rightarrow> exn + 's) \<Rightarrow> 's \<Rightarrow> exn + 's" where
  "forEach [] callback s = Inr s"
| "forEach (childNode # rest) callback s =
     (case callback childNode s of
        Inl e \<Rightarrow> Inl e
      | Inr s' \<Rightarrow> forEach rest callback s')"

definition forEachChild :: "ast \<Rightarrow> ref \<Rightarrow> (ref \<Rightarrow> 's \<Rightarrow> exn + 's) \<Rightarrow> 's \<Rightarrow> exn + 's" where
  "forEachChild h node callback s = forEach (children (node_at h node)) callback s"

text \<open>
  The recursion of \<^verbatim>\<open>handleRecursiveChild\<close> follows the \<open>children\<close> references of the
  store, which need not be well-founded; it is bounded by fuel, and \<open>None\<close> is running
  out of it.
\<close>

fun forEach_fuel ::
  "ref list \<Rightarrow> (ref \<Rightarrow> 's \<Rightarrow> (exn + 's) option) \<Rightarrow> 's \<Rightarrow> (exn + 's) option" where
  "forEach_fuel [] callback s = Some (Inr s)"
| "forEach_fuel (childNode # rest) callback s =
     (case callback childNode s of
        None \<Rightarrow> None
      | Some (Inl e) \<Rightarrow> Some (Inl e)
      | Some (Inr s') \<Rightarrow> forEach_fuel rest callback s')"

fun handleRecursiveChild ::
  "nat \<Rightarrow> ast \<Rightarrow> ref \<Rightarrow> (ref \<Rightarrow> 's \<Rightarrow> exn + 's) \<Rightarrow> 's \<Rightarrow> (exn + 's) option" where
  "handleRecursiveChild 0 h node handler s = None"
| "handleRecursiveChild (Suc fuel) h node handler s =
     forEach_fuel (children (node_at h node))
       (\<lambda>childNode s1.
          case handler childNode s1 of
            Inl e \<Rightarrow> Some (Inl e)
          | Inr s2 \<Rightarrow> handleRecursiveChild fuel h childNode handler s2)
       s"

text \<open>
  \<^verbatim>\<open>getNextSibling\<close>: the callback's variables are \<open>(matched, nextSibling)\<close>. The root
  has no parent, and \<^verbatim>\<open>node.parent.forEachChild\<close> raises there.
\<close>

definition getNextSibling_callback ::
  "ref \<Rightarrow> ref \<Rightarrow> bool \<times> ref option \<Rightarrow> exn + bool \<times> ref option" where
  "getNextSibling_callback node childNode st =
     (case st of (matched, nextSibling) \<Rightarrow>
        if nextSibling \<noteq> None then Inr (matched, nextSibling)
        else if matched then Inr (matched, Some childNode)
        else if childNode = node then Inr (True, nextSibling)
        else Inr (matched, nextSibling))"

definition getNextSibling :: "ast \<Rightarrow> ref \<Rightarrow> exn + ref option" where
  "getNextSibling h node =
     (case parent (node_at h node) of
        None \<Rightarrow> Inl TypeError
      | Some p \<Rightarrow>
          (case forEachChild h p (getNextSibling_callback node) (False, None) of
             Inl e \<Rightarrow> Inl e
           | Inr (matched, nextSibling) \<Rightarrow> Inr nextSibling))"

text \<open>\<^verbatim>\<open>handleSiblings\<close>: the callback's variables are \<open>matched\<close> and the handler's state.\<close>

definition handleSiblings_callback ::
  "ref \<Rightarrow> (ref \<Rightarrow> 's \<Rightarrow> exn + 's) \<Rightarrow> ref \<Rightarrow> bool \<times> 's \<Rightarrow> exn + bool \<times> 's" where
  "handleSiblings_callback node handler childNode st =
     (case st of (matched, s) \<Rightarrow>
        (case (if matched then handler childNode s else Inr s) of
           Inl e \<Rightarrow> Inl e
         | Inr s' \<Rightarrow> Inr (if childNode = node then True else matched, s')))"

definition handleSiblings ::
  "ast \<Rightarrow> ref \<Rightarrow> (ref \<Rightarrow> 's \<Rightarrow> exn + 's) \<Rightarrow> 's \<Rightarrow> exn + 's" where
  "handleSiblings h node handler s =
     (case parent (node_at h node) of
        None \<Rightarrow> Inl TypeError
      | Some p \<Rightarrow>
          (case forEachChild h p (handleSiblings_callback node handler) (False, s) of
             Inl e \<Rightarrow> Inl e
           | Inr (matched, s') \<Rightarrow> Inr s'))"

text \<open>
  The handler that every traversal of \<^verbatim>\<open>Selector\<close> uses:
  \<^verbatim>\<open>if (this.match(childNode)) { nodes.push(childNode); }\<close>.
\<close>

definition push_if_match :: "ast \<Rightarrow> selector \<Rightarrow> ref \<Rightarrow> ref list \<Rightarrow> exn + ref list" where
  "push_if_match h sel childNode nodes =
     (case Selector_match h sel (JNode childNode) of
        Inl e \<Rightarrow> Inl e
      | Inr b \<Rightarrow> Inr (if b then nodes @ [childNode] else nodes))"

definition findNodesByRelationship :: "ast \<Rightarrow> selector \<Rightarrow> ref \<Rightarrow> exn + ref list" where
  "findNodesByRelationship h sel node =
     (if relationship sel = Some ''>'' then
        forEachChild h node (push_if_match h sel) []
      else if relationship sel = Some ''+'' then
        (case getNextSibling h node of
           Inl e \<Rightarrow> Inl e
         | Inr None \<Rightarrow> Inr []
         | Inr (Some nextSibling) \<Rightarrow> push_if_match h sel nextSibling [])
      else if relationship sel = Some ''~'' then
        handleSiblings h node (push_if_match h sel) []
      else Inr [])"

text \<open>
  \<^verbatim>\<open>Selector.queryNodes\<close> takes a node or an array of nodes. \<open>relationship_set\<close> is the
  truthiness of \<^verbatim>\<open>this.relationship\<close>, a string or \<^verbatim>\<open>null\<close>.
\<close>

datatype node_or_nodes = Single ref | Several "ref list"

definition relationship_set :: "selector \<Rightarrow> bool" where
  "relationship_set sel =
     (case relationship sel of None \<Rightarrow> False | Some r \<Rightarrow> r \<noteq> [])"

fun flatMap_fuel ::
  "('a \<Rightarrow> (exn + 'b list) option) \<Rightarrow> 'a list \<Rightarrow> (exn + 'b list) option" where
  "flatMap_fuel f [] = Some (Inr [])"
| "flatMap_fuel f (x # xs) =
     (case f x of
        None \<Rightarrow> None
      | Some (Inl e) \<Rightarrow> Some (Inl e)
      | Some (Inr ys) \<Rightarrow>
          (case flatMap_fuel f xs of
             None \<Rightarrow> None
           | Some (Inl e) \<Rightarrow> Some (Inl e)
           | Some (Inr zs) \<Rightarrow> Some (Inr (ys @ zs))))"

text \<open>The body of \<^verbatim>\<open>Selector.queryNodes\<close> when its argument is one node.\<close>

definition Selector_queryNodes_single ::
  "nat \<Rightarrow> ast \<Rightarrow> selector \<Rightarrow> ref \<Rightarrow> bool \<Rightarrow> (exn + ref list) option" where
  "Selector_queryNodes_single fuel h sel node descendantMatch =
     (if relationship_set sel then Some (findNodesByRelationship h sel node)
      else
        (case push_if_match h sel node [] of
           Inl e \<Rightarrow> Some (Inl e)
         | Inr nodes \<Rightarrow>
             if descendantMatch then
               handleRecursiveChild fuel h node (push_if_match h sel) nodes
             else Some (Inr nodes)))"

definition Selector_queryNodes ::
  "nat \<Rightarrow> ast \<Rightarrow> selector \<Rightarrow> node_or_nodes \<Rightarrow> bool \<Rightarrow> (exn + ref list) option" where
  "Selector_queryNodes fuel h sel node descendantMatch =
     (case node of
        Single n \<Rightarrow> Selector_queryNodes_single fuel h sel n descendantMatch
      | Several ns \<Rightarrow>
          flatMap_fuel (\<lambda>childNode. Selector_queryNodes_single fuel h sel childNode descendantMatch) ns)"

section \<open>Expression\<close>

datatype expression = Expression selector "expression option"

fun Expression_queryNodes ::
  "nat \<Rightarrow> ast \<Rightarrow> expression \<Rightarrow> node_or_nodes \<Rightarrow> bool \<Rightarrow> (exn + ref list) option" where
  "Expression_queryNodes fuel h (Expression sel rest) node descendantMatch =
     (case Selector_queryNodes fuel h sel node descendantMatch of
        None \<Rightarrow> None
      | Some (Inl e) \<Rightarrow> Some (Inl e)
      | Some (Inr matchingNodes) \<Rightarrow>
          (case rest of
             None \<Rightarrow> Some (Inr matchingNodes)
           | Some r \<Rightarrow>
               flatMap_fuel
                 (\<lambda>matchingNode. Expression_queryNodes fuel h r (Single matchingNode) descendantMatch)
                 matchingNodes))"

definition Expression_match :: "nat \<Rightarrow> ast \<Rightarrow> expression \<Rightarrow> ref \<Rightarrow> (exn + bool) option" where
  "Expression_match fuel h e node =
     (case Expression_queryNodes fuel h e (Single node) True of
        None \<Rightarrow> None
      | Some (Inl x) \<Rightarrow> Some (Inl x)
      | Some (Inr nodes) \<Rightarrow> Some (Inr (length nodes \<noteq> 0)))"

section \<open>NodeQuery: compiling a query\<close>

text \<open>
  The constructor of \<^verbatim>\<open>src/src/node-query.ts\<close>. The generated parser is a parameter: on
  a query text it either leaves a result in \<^verbatim>\<open>parser.yy.result\<close> or throws, an
  \<^verbatim>\<open>Error\<close> object with its message or some other value.
\<close>

datatype thrown = ErrorObject string | OtherThrown string

datatype 'e parse_outcome = Parsed 'e | Threw thrown

datatype failure = SyntaxError string | Propagated thrown

definition NodeQuery_constructor ::
  "(string \<Rightarrow> 'e parse_outcome) \<Rightarrow> string \<Rightarrow> failure + 'e" where
  "NodeQuery_constructor parser nql =
     (case parser nql of
        Parsed result \<Rightarrow> Inr result
      | Threw error \<Rightarrow>
          (case error of
             ErrorObject message \<Rightarrow>
               if startsWith message ''Lexical error'' \<or> startsWith message ''Parse error''
               then Inl (SyntaxError (join [CHR 0x0A] (take 3 (split (CHR 0x0A) message))))
               else Inl (Propagated error)
           | OtherThrown x \<Rightarrow> Inl (Propagated error)))"

definition NodeQuery_parse :: "nat \<Rightarrow> ast \<Rightarrow> expression \<Rightarrow> ref \<Rightarrow> (exn + ref list) option" where
  "NodeQuery_parse fuel h e node = Expression_queryNodes fuel h e (Single node) True"

section \<open>Trees in the store\<close>

text \<open>
  A finite tree of references, and what it is for the store to hold it below a node:
  every node of the tree has, as its children in the store, the roots of its subtrees,
  in order.
\<close>

datatype tree = Tree ref "tree list"

fun root :: "tree \<Rightarrow> ref" where
  "root (Tree r ts) = r"

fun preorder :: "tree \<Rightarrow> ref list" where
  "preorder (Tree r ts) = r # concat (map preorder ts)"

fun height :: "tree \<Rightarrow> nat" where
  "height (Tree r ts) = fold max (map (\<lambda>t. Suc (height t)) ts) 0"

fun holds_tree :: "ast \<Rightarrow> tree \<Rightarrow> bool" where
  "holds_tree h (Tree r ts) =
     (children (node_at h r) = map root ts \<and> list_all (holds_tree h) ts)"

section \<open>A sample tree\<close>

text \<open>
  A source file (node 0) with three statements (nodes 1, 2, 3), the first of which has
  one child (node 4). Node 1 has the own properties \<^verbatim>\<open>count\<close>, \<^verbatim>\<open>text\<close> and
  \<^verbatim>\<open>flag\<close>. A node inherits the function \<^verbatim>\<open>getText\<close>, a number the function
  \<^verbatim>\<open>toString\<close>.
\<close>

definition sample_node :: "ref \<Rightarrow> node" where
  "sample_node r =
     (if r = 0 then
        \<lparr>kind = ''SourceFile'', parent = None, children = [1, 2, 3], own = [],
         fullText = ''f(10); g(); h();''\<rparr>
      else if r = 1 then
        \<lparr>kind = ''Foo'', parent = Some 0, children = [4],
         own = [(''count'', JNum 10), (''text'', JStr ''a''), (''flag'', JBool False)],
         fullText = ''f(10);''\<rparr>
      else if r = 2 then
        \<lparr>kind = ''Bar'', parent = Some 0, children = [], own = [], fullText = '' g();''\<rparr>
      else if r = 3 then
        \<lparr>kind = ''Foo'', parent = Some 0, children = [], own = [], fullText = '' h();''\<rparr>
      else
        \<lparr>kind = ''Foo'', parent = Some 1, children = [], own = [], fullText = ''10''\<rparr>)"

definition sample_inherited :: "jsval \<Rightarrow> string \<Rightarrow> (exn + jsval) option" where
  "sample_inherited target key =
     (case target of
        JNode r \<Rightarrow>
          if key = ''getText'' then Some (Inr (JStr (trim (fullText (sample_node r)))))
          else None
      | JNum n \<Rightarrow>
          if key = ''toString'' then Some (Inr (JStr (Number_toString n)))
          else None
      | _ \<Rightarrow> None)"

definition sample_store :: ast where
  "sample_store = \<lparr>node_at = sample_node, inherited = sample_inherited\<rparr>"

definition sample_tree :: tree where
  "sample_tree = Tree 0 [Tree 1 [Tree 4 []], Tree 2 [], Tree 3 []]"

text \<open>
  A parser that accepts one query, reports a parse error with a diagnostic of four lines
  on another, fails with an error that is not a syntax error on the empty text, and
  throws a value that is not an \<^verbatim>\<open>Error\<close> on everything else.
\<close>

definition parse_error_message :: string where
  "parse_error_message =
     ''Parse error on line 1:'' @ [CHR 0x0A] @ ''.Foo['' @ [CHR 0x0A] @ ''----^'' @ [CHR 0x0A]
       @ ''Expecting KEY''"

definition sample_parser :: "string \<Rightarrow> expression parse_outcome" where
  "sample_parser nql =
     (if nql = ''.Foo'' then
        Parsed (Expression (Selector (Some (SimpleSelector ''Foo'' None)) None) None)
      else if nql = ''.Foo['' then Threw (ErrorObject parse_error_message)
      else if nql = [] then Threw (ErrorObject ''Maximum call stack size exceeded'')
      else Threw (OtherThrown ''a thrown string''))"

section \<open>Properties of the Value family\<close>

lemma Value_actualValue_Inl:
  "Value_actualValue h node = Inl e \<longleftrightarrow> e = TypeError \<and> isArray node"
  by (cases node) (auto simp: isArray_def)

lemma String_actualValue_Inl:
  "String_actualValue h node = Inl e \<longleftrightarrow> e = TypeError \<and> isArray node"
  by (cases node) (auto simp: String_actualValue_def isArray_def)

lemma actualValue_Inl:
  "actualValue h v node = Inl e \<longleftrightarrow> e = TypeError \<and> isArray node"
  by (cases v) (simp_all add: String_actualValue_Inl Value_actualValue_Inl)

lemma val_match_Inl:
  "val_match h v node operator = Inl e \<longleftrightarrow> actualValue h v node = Inl e"
  by (cases v) (auto simp: Value_match_def Number_match_def split: sum.splits)

lemma val_match_not_array:
  "\<not> isArray node \<Longrightarrow> \<exists>b. val_match h v node operator = Inr b"
  by (cases "val_match h v node operator") (auto simp: val_match_Inl actualValue_Inl)

lemma val_match_ne_eq:
  "val_match h v node ''!='' = Inr b \<Longrightarrow> val_match h v node ''=='' = Inr (\<not> b)"
  by (cases v)
    (auto simp: Value_match_def Number_match_def Value_switch_def Number_switch_def
      split: sum.splits)

text \<open>
  Claim C1 asks that \<^verbatim>\<open>[count>9]\<close> match a node whose \<^verbatim>\<open>count\<close> resolves to the
  number 10, by a numeric comparison. \<^verbatim>\<open>Number.match\<close> compares the two decimal
  renderings as strings: on node 1 of the sample tree the key resolves to 10, and the
  predicate does not match, since \<^verbatim>\<open>"10" > "9"\<close> is false.
\<close>

theorem Number_match_gt_9_rejects_10:
  "getTargetNode sample_store ''count'' (JNode 1) = Inr (JNum 10)
   \<and> Attribute_match sample_store (Attribute ''count'' (ValueOf (Number 9)) ''>'') (JNode 1)
       = Inr False"
  by code_simp

text \<open>
  Claim C9: an operator that is not among the cases of the \<^verbatim>\<open>switch\<close> falls through to
  the equality of the actual and the expected value, in \<^verbatim>\<open>Value.match\<close> and in
  \<^verbatim>\<open>Number.match\<close>; so the affix operators on a \<^verbatim>\<open>Number\<close> literal are equality
  tests. No operator raises an error of its own: the only error of a literal's
  \<^verbatim>\<open>match\<close> is the \<^verbatim>\<open>TypeError\<close> of \<^verbatim>\<open>actualValue\<close> on an array.
\<close>

theorem match_default_is_equality:
  "(operator \<notin> {''^='', ''$='', ''*='', ''!='', ''>='', ''>'', ''<='', ''<''} \<longrightarrow>
      Value_match h v node operator =
        (case actualValue h v node of
           Inl x \<Rightarrow> Inl x
         | Inr actual \<Rightarrow> Inr (actual = expectedValue v)))
   \<and> (operator \<notin> {''!='', ''>='', ''>'', ''<='', ''<''} \<longrightarrow>
      Number_match h v node operator =
        (case actualValue h v node of
           Inl x \<Rightarrow> Inl x
         | Inr actual \<Rightarrow> Inr (actual = expectedValue v)))
   \<and> (operator \<in> {''^='', ''$='', ''*=''} \<longrightarrow>
      val_match h (Number n) node operator = val_match h (Number n) node ''=='')
   \<and> (val_match h v node operator = Inl e \<longrightarrow> e = TypeError \<and> isArray node)"
proof (intro conjI impI)
  assume "operator \<notin> {''^='', ''$='', ''*='', ''!='', ''>='', ''>'', ''<='', ''<''}"
  then show "Value_match h v node operator =
        (case actualValue h v node of
           Inl x \<Rightarrow> Inl x
         | Inr actual \<Rightarrow> Inr (actual = expectedValue v))"
    by (simp add: Value_match_def Value_switch_def split: sum.splits)
next
  assume "operator \<notin> {''!='', ''>='', ''>'', ''<='', ''<''}"
  then show "Number_match h v node operator =
        (case actualValue h v node of
           Inl x \<Rightarrow> Inl x
         | Inr actual \<Rightarrow> Inr (actual = expectedValue v))"
    by (simp add: Number_match_def Number_switch_def split: sum.splits)
next
  assume "operator \<in> {''^='', ''$='', ''*=''}"
  then show "val_match h (Number n) node operator = val_match h (Number n) node ''==''"
    by (auto simp: Number_match_def Number_switch_def split: sum.splits)
next
  assume "val_match h v node operator = Inl e"
  then show "e = TypeError" "isArray node"
    by (simp_all add: val_match_Inl actualValue_Inl)
qed

theorem match_default_is_equality_witness:
  "''~='' \<notin> {''^='', ''$='', ''*='', ''!='', ''>='', ''>'', ''<='', ''<''}
   \<and> Value_match sample_store (Identifier ''foo'') (JStr ''foo'') ''~='' = Inr True
   \<and> ''^='' \<in> {''^='', ''$='', ''*=''}
   \<and> val_match sample_store (Number 1) (JNum 10) ''^=''
       = val_match sample_store (Number 1) (JNum 10) ''==''
   \<and> val_match sample_store (Number 1) (JNum 10) ''^='' = Inr False
   \<and> val_match sample_store (Number 1) (JArr []) ''^='' = Inl TypeError
   \<and> isArray (JArr [])"
proof -
  have a: "''~='' \<notin> {''^='', ''$='', ''*='', ''!='', ''>='', ''>'', ''<='', ''<''}"
    by simp
  have b: "''^='' \<in> {''^='', ''$='', ''*=''}"
    by simp
  have c: "val_match sample_store (Number 1) (JNum 10) ''=='' = Inr False"
    by code_simp
  have d: "val_match sample_store (Number 1) (JArr []) ''^='' = Inl TypeError"
    by code_simp
  have 1: "Value_match sample_store (Identifier ''foo'') (JStr ''foo'') ''~='' = Inr True"
    using match_default_is_equality [of "''~=''" sample_store "Identifier ''foo''" "JStr ''foo''"] a
    by simp
  have 2: "val_match sample_store (Number 1) (JNum 10) ''^=''
           = val_match sample_store (Number 1) (JNum 10) ''==''"
    using match_default_is_equality [of "''^=''" sample_store "Number 1" "JNum 10" 1] b
    by blast
  have 3: "isArray (JArr [])"
    using match_default_is_equality [of "''^=''" sample_store "Number 1" "JArr []" 1 TypeError] d
    by blast
  from a b c d 1 2 3 show ?thesis by (simp only: simp_thms)
qed




section \<open>Properties of ArrayValue\<close>

lemma some_equal_not_array:
  "\<not> isArray node \<Longrightarrow>
   some_equal h node vs = Inr (\<exists>v\<in>set vs. val_match h v node ''=='' = Inr True)"
proof (induction vs)
  case Nil
  then show ?case by simp
next
  case (Cons v vs)
  from Cons.prems obtain b where b: "val_match h v node ''=='' = Inr b"
    using val_match_not_array by blast
  with Cons show ?case by (cases b) auto
qed

lemma every_not_equal_not_array:
  "\<not> isArray node \<Longrightarrow>
   every_not_equal h node vs = Inr (\<forall>v\<in>set vs. val_match h v node ''!='' = Inr True)"
proof (induction vs)
  case Nil
  then show ?case by simp
next
  case (Cons v vs)
  from Cons.prems obtain b where b: "val_match h v node ''!='' = Inr b"
    using val_match_not_array by blast
  with Cons show ?case by (cases b) auto
qed

lemma every_is_not_some:
  assumes "\<not> isArray node"
  shows "(\<forall>v\<in>set vs. val_match h v node ''!='' = Inr True)
         \<longleftrightarrow> \<not> (\<exists>v\<in>set vs. val_match h v node ''=='' = Inr True)"
proof -
  have "val_match h v node ''!='' = Inr True \<longleftrightarrow> val_match h v node ''=='' \<noteq> Inr True" for v
  proof -
    obtain b where b: "val_match h v node ''!='' = Inr b"
      using assms val_match_not_array by blast
    from val_match_ne_eq [OF b] b show ?thesis by auto
  qed
  then show ?thesis by blast
qed

lemma expectedValue_chain:
  "ArrayValue_expectedValue (ArrayValue w (foldr (\<lambda>x r. Some (ArrayValue x r)) ws None))
     = concat (map (\<lambda>x. case x of None \<Rightarrow> [] | Some v \<Rightarrow> [v]) (w # ws))"
  by (induction ws arbitrary: w) simp_all

lemma set_expectedValue_chain:
  "v \<in> set (ArrayValue_expectedValue (ArrayValue w (foldr (\<lambda>x r. Some (ArrayValue x r)) ws None)))
     \<longleftrightarrow> Some v \<in> set (w # ws)"
  unfolding expectedValue_chain by (auto split: option.splits)

lemma array_value_is_chain:
  "\<exists>w ws. av = ArrayValue w (foldr (\<lambda>x r. Some (ArrayValue x r)) ws None)"
proof (induction av)
  case (ArrayValue w r)
  show ?case
  proof (cases r)
    case None
    then have "ArrayValue w r = ArrayValue w (foldr (\<lambda>x r. Some (ArrayValue x r)) [] None)"
      by simp
    then show ?thesis by blast
  next
    case (Some av')
    with ArrayValue obtain w' ws' where
      "av' = ArrayValue w' (foldr (\<lambda>x r. Some (ArrayValue x r)) ws' None)"
      by fastforce
    with Some have "ArrayValue w r = ArrayValue w (foldr (\<lambda>x r. Some (ArrayValue x r)) (w' # ws') None)"
      by simp
    then show ?thesis by blast
  qed
qed

lemma val_match_eq_True:
  "val_match h v node ''=='' = Inr True \<longleftrightarrow> actualValue h v node = Inr (expectedValue v)"
  by (cases v)
    (auto simp: Value_match_def Number_match_def Value_switch_def Number_switch_def
      split: sum.splits)

lemma val_match_ne_True:
  "\<not> isArray node \<Longrightarrow>
   val_match h v node ''!='' = Inr True \<longleftrightarrow> actualValue h v node \<noteq> Inr (expectedValue v)"
proof -
  assume na: "\<not> isArray node"
  then obtain a where a: "actualValue h v node = Inr a"
    by (cases "actualValue h v node") (auto simp: actualValue_Inl)
  then show ?thesis
    by (cases v) (auto simp: Value_match_def Number_match_def Value_switch_def Number_switch_def)
qed

text \<open>
  Claim C6: every \<^verbatim>\<open>ArrayValue\<close> is a chain of optional literals. On a target that is
  not an array, \<^verbatim>\<open>ArrayValue.match\<close> with \<^verbatim>\<open>in\<close> returns whether the target equals
  some literal of the chain (its actual value for that literal is the literal's expected
  value), with \<^verbatim>\<open>not_in\<close> whether it is unequal to every literal of the chain, and
  the two booleans are complementary; on an array both return false.
\<close>

theorem ArrayValue_in_not_in:
  "(\<not> isArray node \<longrightarrow>
      ArrayValue_match h (ArrayValue w (foldr (\<lambda>x r. Some (ArrayValue x r)) ws None)) node ''in''
        = Inr (\<exists>v. Some v \<in> set (w # ws) \<and> actualValue h v node = Inr (expectedValue v))
    \<and> ArrayValue_match h (ArrayValue w (foldr (\<lambda>x r. Some (ArrayValue x r)) ws None)) node ''not_in''
        = Inr (\<forall>v. Some v \<in> set (w # ws) \<longrightarrow> actualValue h v node \<noteq> Inr (expectedValue v))
    \<and> (\<exists>b. ArrayValue_match h av node ''in'' = Inr b
           \<and> ArrayValue_match h av node ''not_in'' = Inr (\<not> b)))
   \<and> (isArray node \<longrightarrow>
      ArrayValue_match h av node ''in'' = Inr False
    \<and> ArrayValue_match h av node ''not_in'' = Inr False)
   \<and> (\<exists>w' ws'. av = ArrayValue w' (foldr (\<lambda>x r. Some (ArrayValue x r)) ws' None))"
proof (intro conjI impI)
  let ?c = "ArrayValue w (foldr (\<lambda>x r. Some (ArrayValue x r)) ws None)"
  assume na: "\<not> isArray node"
  show "ArrayValue_match h ?c node ''in''
        = Inr (\<exists>v. Some v \<in> set (w # ws) \<and> actualValue h v node = Inr (expectedValue v))"
    using na
    by (simp add: ArrayValue_match_def some_equal_not_array val_match_eq_True
        set_expectedValue_chain Bex_def del: ArrayValue_expectedValue.simps foldr.simps set_simps)
  show "ArrayValue_match h ?c node ''not_in''
        = Inr (\<forall>v. Some v \<in> set (w # ws) \<longrightarrow> actualValue h v node \<noteq> Inr (expectedValue v))"
    using na
    by (simp add: ArrayValue_match_def every_not_equal_not_array val_match_ne_True
        set_expectedValue_chain Ball_def del: ArrayValue_expectedValue.simps foldr.simps set_simps)
  have i: "ArrayValue_match h av node ''in'' =
        Inr (\<exists>v\<in>set (ArrayValue_expectedValue av). val_match h v node ''=='' = Inr True)"
    using na by (simp add: ArrayValue_match_def some_equal_not_array)
  have n: "ArrayValue_match h av node ''not_in'' =
        Inr (\<forall>v\<in>set (ArrayValue_expectedValue av). val_match h v node ''!='' = Inr True)"
    using na by (simp add: ArrayValue_match_def every_not_equal_not_array)
  show "\<exists>b. ArrayValue_match h av node ''in'' = Inr b
           \<and> ArrayValue_match h av node ''not_in'' = Inr (\<not> b)"
    unfolding i n using every_is_not_some [OF na] by simp
next
  assume "isArray node"
  then show "ArrayValue_match h av node ''in'' = Inr False"
    and "ArrayValue_match h av node ''not_in'' = Inr False"
    by (simp_all add: ArrayValue_match_def)
next
  show "\<exists>w' ws'. av = ArrayValue w' (foldr (\<lambda>x r. Some (ArrayValue x r)) ws' None)"
    by (rule array_value_is_chain)
qed

theorem ArrayValue_in_not_in_witness:
  "\<not> isArray (JNum 7) \<and> \<not> isArray (JNum 10) \<and> isArray (JArr [JNum 10])
   \<and> ArrayValue_match sample_store
        (ArrayValue (Some (Number 1)) (Some (ArrayValue (Some (Number 10)) None)))
        (JNum 10) ''in'' = Inr True
   \<and> ArrayValue_match sample_store
        (ArrayValue (Some (Number 1)) (Some (ArrayValue (Some (Number 10)) None)))
        (JNum 10) ''not_in'' = Inr False
   \<and> ArrayValue_match sample_store
        (ArrayValue (Some (Number 1)) (Some (ArrayValue (Some (Number 10)) None)))
        (JNum 7) ''in'' = Inr False
   \<and> ArrayValue_match sample_store
        (ArrayValue (Some (Number 1)) (Some (ArrayValue (Some (Number 10)) None)))
        (JNum 7) ''not_in'' = Inr True
   \<and> ArrayValue_match sample_store
        (ArrayValue (Some (Number 1)) (Some (ArrayValue (Some (Number 10)) None)))
        (JArr [JNum 10]) ''in'' = Inr False
   \<and> ArrayValue_match sample_store
        (ArrayValue (Some (Number 1)) (Some (ArrayValue (Some (Number 10)) None)))
        (JArr [JNum 10]) ''not_in'' = Inr False"
proof -
  let ?av = "ArrayValue (Some (Number 1)) (Some (ArrayValue (Some (Number 10)) None))"
  let ?c = "ArrayValue (Some (Number 1))
              (foldr (\<lambda>x r. Some (ArrayValue x r)) [Some (Number 10)] None)"
  let ?eq = "\<lambda>node v. actualValue sample_store v node = Inr (expectedValue v)"
  have chain: "?c = ?av"
    by simp
  have a7: "\<not> isArray (JNum 7)" and a10: "\<not> isArray (JNum 10)"
    by (simp_all add: isArray_def)
  have arr: "isArray (JArr [JNum 10])"
    by (simp add: isArray_def)
  have e10: "?eq (JNum 10) (Number 10)"
    by code_simp
  have n1: "\<not> ?eq (JNum 7) (Number 1)" and n10: "\<not> ?eq (JNum 7) (Number 10)"
    by code_simp+
  have some10: "\<exists>v. Some v \<in> set [Some (Number 1), Some (Number 10)] \<and> ?eq (JNum 10) v"
    using e10 by (intro exI [of _ "Number 10"]) simp
  have none7: "\<forall>v. Some v \<in> set [Some (Number 1), Some (Number 10)] \<longrightarrow> \<not> ?eq (JNum 7) v"
    using n1 n10 by auto
  note at10 = ArrayValue_in_not_in [of "JNum 10" sample_store "Some (Number 1)" "[Some (Number 10)]" ?av]
  note at7 = ArrayValue_in_not_in [of "JNum 7" sample_store "Some (Number 1)" "[Some (Number 10)]" ?av]
  note atarr = ArrayValue_in_not_in [of "JArr [JNum 10]" sample_store _ _ ?av]
  have 1: "ArrayValue_match sample_store ?c (JNum 10) ''in'' = Inr True"
    using at10 a10 some10 by simp
  have 2: "ArrayValue_match sample_store ?av (JNum 10) ''not_in'' = Inr False"
    using at10 a10 1 [unfolded chain] by auto
  have 3: "ArrayValue_match sample_store ?c (JNum 7) ''not_in'' = Inr True"
    using at7 a7 none7 by simp
  have 4: "ArrayValue_match sample_store ?av (JNum 7) ''in'' = Inr False"
    using at7 a7 3 [unfolded chain] by auto
  have 5: "ArrayValue_match sample_store ?av (JArr [JNum 10]) ''in'' = Inr False"
    and 6: "ArrayValue_match sample_store ?av (JArr [JNum 10]) ''not_in'' = Inr False"
    using atarr arr by blast+
  from a7 a10 arr 1 [unfolded chain] 2 3 [unfolded chain] 4 5 6 show ?thesis
    by (simp only: simp_thms)
qed

section \<open>Properties of the key-path resolver\<close>

lemma resolveSegments_append:
  "resolveSegments h node (pre @ post) =
     (case resolveSegments h node pre of
        Inl e \<Rightarrow> Inl e
      | Inr target \<Rightarrow> resolveSegments h target post)"
  by (induction pre arbitrary: node) (auto split: sum.splits)

lemma resolveSegments_falsy:
  "falsy target \<Longrightarrow> resolveSegments h target keys = Inr target"
  by (induction keys) (auto simp: resolveSegment_def)





text \<open>
  Claim C10: when the target reached after some segments is falsy (\<^verbatim>\<open>null\<close>,
  \<^verbatim>\<open>undefined\<close>, \<^verbatim>\<open>0\<close>, the empty string or \<^verbatim>\<open>false\<close>), the remaining segments
  leave it alone and the resolver returns that value itself. On a truthy target a
  segment that is an own property yields the property's value, one that is an inherited
  function yields the outcome of the call, and only one that is neither sets the target
  to \<^verbatim>\<open>null\<close>.
\<close>

theorem falsy_target_stops_resolution:
  "(split CHR ''.'' key = pre @ post \<and> resolveSegments h node pre = Inr target \<and> falsy target
      \<longrightarrow> getTargetNode h key node = Inr target)
   \<and> falsy JNull \<and> falsy JUndefined \<and> falsy (JNum 0) \<and> falsy (JStr []) \<and> falsy (JBool False)
   \<and> (\<not> falsy target \<and> ownProperty h target k = Some v
      \<longrightarrow> resolveSegment h target k = Inr v)
   \<and> (\<not> falsy target \<and> ownProperty h target k = None \<and> inherited h target k = Some outcome
      \<longrightarrow> resolveSegment h target k = outcome)
   \<and> (\<not> falsy target \<and> ownProperty h target k = None \<and> inherited h target k = None
      \<longrightarrow> resolveSegment h target k = Inr JNull)"
  by (simp add: getTargetNode_def resolveSegments_append resolveSegments_falsy resolveSegment_def)

theorem falsy_target_stops_resolution_witness:
  "split CHR ''.'' ''flag.length.foo'' = [''flag''] @ [''length'', ''foo'']
   \<and> resolveSegments sample_store (JNode 1) [''flag''] = Inr (JBool False)
   \<and> falsy (JBool False)
   \<and> getTargetNode sample_store ''flag.length.foo'' (JNode 1) = Inr (JBool False)
   \<and> \<not> falsy (JNode 1)
   \<and> ownProperty sample_store (JNode 1) ''count'' = Some (JNum 10)
   \<and> resolveSegment sample_store (JNode 1) ''count'' = Inr (JNum 10)
   \<and> ownProperty sample_store (JNode 1) ''getText'' = None
   \<and> inherited sample_store (JNode 1) ''getText'' = Some (Inr (JStr ''f(10);''))
   \<and> resolveSegment sample_store (JNode 1) ''getText'' = Inr (JStr ''f(10);'')
   \<and> ownProperty sample_store (JNode 1) ''key'' = None
   \<and> inherited sample_store (JNode 1) ''key'' = None
   \<and> resolveSegment sample_store (JNode 1) ''key'' = Inr JNull"
proof -
  have a: "split CHR ''.'' ''flag.length.foo'' = [''flag''] @ [''length'', ''foo'']"
    by simp
  have b: "resolveSegments sample_store (JNode 1) [''flag''] = Inr (JBool False)"
    by code_simp
  have c: "falsy (JBool False)"
    by simp
  have d: "\<not> falsy (JNode 1)"
    by simp
  have e: "ownProperty sample_store (JNode 1) ''count'' = Some (JNum 10)"
    by code_simp
  have f: "ownProperty sample_store (JNode 1) ''getText'' = None"
    by code_simp
  have g: "inherited sample_store (JNode 1) ''getText'' = Some (Inr (JStr ''f(10);''))"
    by code_simp
  have i: "ownProperty sample_store (JNode 1) ''key'' = None"
    by code_simp
  have j: "inherited sample_store (JNode 1) ''key'' = None"
    by code_simp
  have 1: "getTargetNode sample_store ''flag.length.foo'' (JNode 1) = Inr (JBool False)"
    using falsy_target_stops_resolution [of "''flag.length.foo''" "[''flag'']" "[''length'', ''foo'']" sample_store
        "JNode 1" "JBool False"] a b c
    by blast
  have 2: "resolveSegment sample_store (JNode 1) ''count'' = Inr (JNum 10)"
    using falsy_target_stops_resolution [of _ _ _ sample_store _ "JNode 1" "''count''" "JNum 10"] d e
    by blast
  have 3: "resolveSegment sample_store (JNode 1) ''getText'' = Inr (JStr ''f(10);'')"
    using falsy_target_stops_resolution [of _ _ _ sample_store _ "JNode 1" "''getText''" _ "Inr (JStr ''f(10);'')"] d f g
    by blast
  have 4: "resolveSegment sample_store (JNode 1) ''key'' = Inr JNull"
    using falsy_target_stops_resolution [of _ _ _ sample_store _ "JNode 1" "''key''"] d i j
    by blast
  from a b c d e f g i j 1 2 3 4 show ?thesis by blast
qed

section \<open>Properties of the constructor\<close>

lemma startsWith_iff: "startsWith s p \<longleftrightarrow> (\<exists>t. s = p @ t)"
  by (induction s p rule: startsWith.induct) auto

lemma split_not_Nil: "split sep s \<noteq> []"
  by (induction s) (auto split: list.splits)

lemma join_Cons: "ws \<noteq> [] \<Longrightarrow> join sep (w # ws) = w @ sep @ join sep ws"
  by (cases ws) auto

lemma join_split: "join [sep] (split sep s) = s"
proof (induction s)
  case Nil
  then show ?case by simp
next
  case (Cons c cs)
  show ?case
  proof (cases "c = sep")
    case True
    with Cons show ?thesis by (simp add: join_Cons split_not_Nil)
  next
    case False
    obtain w ws where w: "split sep cs = w # ws"
      using split_not_Nil [of sep cs] by (cases "split sep cs") auto
    with Cons False show ?thesis by (cases ws) auto
  qed
qed

lemma join_take_prefix: "\<exists>t. join sep ws = join sep (take n ws) @ t"
proof (induction ws arbitrary: n)
  case Nil
  then show ?case by simp
next
  case (Cons w ws)
  show ?case
  proof (cases n)
    case 0
    then show ?thesis by simp
  next
    case (Suc m)
    show ?thesis
    proof (cases "take m ws = []")
      case True
      then show ?thesis using Suc by (cases ws) auto
    next
      case False
      then have ne: "ws \<noteq> []" by auto
      from Cons.IH [of m] obtain t where "join sep ws = join sep (take m ws) @ t" ..
      then show ?thesis using Suc False ne by (simp add: join_Cons)
    qed
  qed
qed

lemma first_lines_prefix:
  "startsWith message (join [sep] (take n (split sep message)))"
proof -
  from join_take_prefix [of "[sep]" "split sep message" n]
  show ?thesis by (simp add: startsWith_iff join_split)
qed

text \<open>
  Claim C8: the constructor returns the parser's result when the parser returns; when
  the parser throws an \<^verbatim>\<open>Error\<close> whose message starts with \<^verbatim>\<open>Lexical error\<close> or
  \<^verbatim>\<open>Parse error\<close>, it fails with a \<^verbatim>\<open>SyntaxError\<close> whose message is the first three
  lines of that message, a prefix of it; anything else the parser throws is thrown on
  unchanged. The constructor has no tree to match against: matching is
  \<^verbatim>\<open>NodeQuery.parse\<close>, on a query that the constructor has returned.
\<close>

theorem NodeQuery_constructor_outcomes:
  "(parser nql = Parsed result \<longrightarrow> NodeQuery_constructor parser nql = Inr result)
   \<and> (parser nql = Threw (ErrorObject message)
        \<and> (startsWith message ''Lexical error'' \<or> startsWith message ''Parse error'') \<longrightarrow>
      NodeQuery_constructor parser nql =
        Inl (SyntaxError (join [CHR 0x0A] (take 3 (split (CHR 0x0A) message))))
      \<and> startsWith message (join [CHR 0x0A] (take 3 (split (CHR 0x0A) message))))
   \<and> (parser nql = Threw (ErrorObject message)
        \<and> \<not> startsWith message ''Lexical error'' \<and> \<not> startsWith message ''Parse error'' \<longrightarrow>
      NodeQuery_constructor parser nql = Inl (Propagated (ErrorObject message)))
   \<and> (parser nql = Threw (OtherThrown x) \<longrightarrow>
      NodeQuery_constructor parser nql = Inl (Propagated (OtherThrown x)))"
  by (auto simp: NodeQuery_constructor_def first_lines_prefix)

theorem NodeQuery_constructor_outcomes_witness:
  "NodeQuery_constructor sample_parser ''.Foo''
     = Inr (Expression (Selector (Some (SimpleSelector ''Foo'' None)) None) None)
   \<and> sample_parser ''.Foo['' = Threw (ErrorObject parse_error_message)
   \<and> startsWith parse_error_message ''Parse error''
   \<and> NodeQuery_constructor sample_parser ''.Foo[''
       = Inl (SyntaxError (''Parse error on line 1:'' @ [CHR 0x0A] @ ''.Foo['' @ [CHR 0x0A] @ ''----^''))
   \<and> NodeQuery_constructor sample_parser []
       = Inl (Propagated (ErrorObject ''Maximum call stack size exceeded''))
   \<and> NodeQuery_constructor sample_parser ''.Bar''
       = Inl (Propagated (OtherThrown ''a thrown string''))"
proof -
  let ?e = "Expression (Selector (Some (SimpleSelector ''Foo'' None)) None) None"
  let ?m = "''Maximum call stack size exceeded''"
  have a: "sample_parser ''.Foo'' = Parsed ?e"
    by (simp add: sample_parser_def)
  have b: "sample_parser ''.Foo['' = Threw (ErrorObject parse_error_message)"
    by (simp add: sample_parser_def)
  have c: "startsWith parse_error_message ''Parse error''"
    by (simp add: parse_error_message_def)
  have d: "join [CHR 0x0A] (take 3 (split (CHR 0x0A) parse_error_message))
             = ''Parse error on line 1:'' @ [CHR 0x0A] @ ''.Foo['' @ [CHR 0x0A] @ ''----^''"
    by code_simp
  have e: "sample_parser [] = Threw (ErrorObject ?m)"
    by (simp add: sample_parser_def)
  have f: "\<not> startsWith ?m ''Lexical error'' \<and> \<not> startsWith ?m ''Parse error''"
    by simp
  have g: "sample_parser ''.Bar'' = Threw (OtherThrown ''a thrown string'')"
    by (simp add: sample_parser_def)
  have 1: "NodeQuery_constructor sample_parser ''.Foo'' = Inr ?e"
    using NodeQuery_constructor_outcomes [of sample_parser "''.Foo''" ?e] a by blast
  have 2: "NodeQuery_constructor sample_parser ''.Foo[''
             = Inl (SyntaxError (join [CHR 0x0A] (take 3 (split (CHR 0x0A) parse_error_message))))"
    using NodeQuery_constructor_outcomes [of sample_parser "''.Foo[''" _ parse_error_message] b c by blast
  have 3: "NodeQuery_constructor sample_parser [] = Inl (Propagated (ErrorObject ?m))"
    using NodeQuery_constructor_outcomes [of sample_parser "[]" _ ?m] e f by blast
  have 4: "NodeQuery_constructor sample_parser ''.Bar''
             = Inl (Propagated (OtherThrown ''a thrown string''))"
    using NodeQuery_constructor_outcomes [of sample_parser "''.Bar''" _ _ "''a thrown string''"] g by blast
  from 1 b c 2 [unfolded d] 3 4 show ?thesis by blast
qed

section \<open>Properties of the traversal\<close>

lemma Selector_match_type:
  "Selector_match h (Selector (Some (SimpleSelector foo None)) rel) (JNode r)
     = Inr (kind (node_at h r) = foo)"
  by auto

lemma push_if_match_type:
  "push_if_match h (Selector (Some (SimpleSelector foo None)) rel) c acc
     = Inr (acc @ filter (\<lambda>r. kind (node_at h r) = foo) [c])"
  by (simp add: push_if_match_def Selector_match_type del: Selector_match.simps)

lemma forEach_append:
  "forEach (xs @ ys) callback s =
     (case forEach xs callback s of
        Inl e \<Rightarrow> Inl e
      | Inr s' \<Rightarrow> forEach ys callback s')"
  by (induction xs arbitrary: s) (auto split: sum.splits)

lemma fold_max_ge: "a \<le> fold max xs (a::nat)"
proof (induction xs arbitrary: a)
  case Nil
  then show ?case by simp
next
  case (Cons x xs)
  have "a \<le> max x a" by simp
  also have "\<dots> \<le> fold max xs (max x a)" by (rule Cons.IH)
  finally show ?case by simp
qed

lemma fold_max_mem: "x \<in> set xs \<Longrightarrow> x \<le> fold max xs (a::nat)"
proof (induction xs arbitrary: a)
  case Nil
  then show ?case by simp
next
  case (Cons y ys)
  show ?case
  proof (cases "x = y")
    case True
    have "x \<le> max y a" using True by simp
    also have "\<dots> \<le> fold max ys (max y a)" by (rule fold_max_ge)
    finally show ?thesis by simp
  next
    case False
    with Cons.prems have "x \<in> set ys" by simp
    then show ?thesis using Cons.IH by simp
  qed
qed

lemma height_child: "t \<in> set ts \<Longrightarrow> height t < height (Tree r ts)"
proof -
  assume "t \<in> set ts"
  then have "Suc (height t) \<in> set (map (\<lambda>t. Suc (height t)) ts)" by auto
  then have "Suc (height t) \<le> fold max (map (\<lambda>t. Suc (height t)) ts) 0"
    by (rule fold_max_mem)
  then show ?thesis by simp
qed

lemma filter_preorder:
  "filter P [root t] @ filter P (tl (preorder t)) = filter P (preorder t)"
  by (cases t) simp

lemma preorder_forest:
  assumes H: "\<And>c s. handler c s = Inr (s @ filter P [c])"
    and IH: "\<And>t acc. t \<in> set ts \<Longrightarrow>
          handleRecursiveChild fuel h (root t) handler acc
            = Some (Inr (acc @ filter P (tl (preorder t))))"
  shows "forEach_fuel (map root ts)
           (\<lambda>childNode s1.
              case handler childNode s1 of
                Inl e \<Rightarrow> Some (Inl e)
              | Inr s2 \<Rightarrow> handleRecursiveChild fuel h childNode handler s2)
           acc
         = Some (Inr (acc @ filter P (concat (map preorder ts))))"
  using IH
proof (induction ts arbitrary: acc)
  case Nil
  then show ?case by simp
next
  case (Cons t ts)
  let ?F = "\<lambda>childNode s1.
              case handler childNode s1 of
                Inl e \<Rightarrow> Some (Inl e)
              | Inr s2 \<Rightarrow> handleRecursiveChild fuel h childNode handler s2"
  have "?F (root t) acc
          = handleRecursiveChild fuel h (root t) handler (acc @ filter P [root t])"
    by (simp only: H sum.case)
  also have "\<dots> = Some (Inr ((acc @ filter P [root t]) @ filter P (tl (preorder t))))"
    by (rule Cons.prems) simp
  also have "(acc @ filter P [root t]) @ filter P (tl (preorder t))
               = acc @ filter P (preorder t)"
    by (simp only: append_assoc filter_preorder)
  finally have head: "?F (root t) acc = Some (Inr (acc @ filter P (preorder t)))" .
  have rest: "forEach_fuel (map root ts) ?F (acc @ filter P (preorder t))
                = Some (Inr ((acc @ filter P (preorder t)) @ filter P (concat (map preorder ts))))"
    by (rule Cons.IH) (simp add: Cons.prems)
  have "forEach_fuel (map root (t # ts)) ?F acc
          = forEach_fuel (map root ts) ?F (acc @ filter P (preorder t))"
    by (simp only: list.map forEach_fuel.simps head option.case sum.case)
  with rest show ?case by simp
qed

lemma handleRecursiveChild_tree:
  assumes H: "\<And>c s. handler c s = Inr (s @ filter P [c])"
  shows "holds_tree h t \<Longrightarrow> height t < fuel \<Longrightarrow>
         handleRecursiveChild fuel h (root t) handler acc
           = Some (Inr (acc @ filter P (tl (preorder t))))"
proof (induction t arbitrary: fuel acc)
  case (Tree r ts)
  from Tree.prems(2) obtain f where fuel: "fuel = Suc f"
    by (cases fuel) auto
  have sub: "handleRecursiveChild f h (root t) handler a
               = Some (Inr (a @ filter P (tl (preorder t))))"
    if "t \<in> set ts" for t a
  proof -
    from that Tree.prems(1) have "holds_tree h t"
      by (simp add: list_all_iff)
    moreover from height_child [OF that, of r] Tree.prems(2) fuel have "height t < f"
      by simp
    ultimately show ?thesis using Tree.IH that by blast
  qed
  from Tree.prems(1) have ch: "children (node_at h r) = map root ts"
    by simp
  show ?case
    using preorder_forest [of handler P ts f h acc, OF H sub]
    by (simp add: fuel ch)
qed

text \<open>
  Claim C3: for a tree held by the store and enough fuel (more than its height), the
  selector \<^verbatim>\<open>.Foo\<close> without relationship, queried on the root with descendant
  matching, returns the nodes of kind \<^verbatim>\<open>Foo\<close> among the root and its descendants in
  depth-first preorder: the preorder sequence of the tree, filtered, so each position of
  the traversal is reported at most once.
\<close>

theorem type_selector_preorder:
  assumes "holds_tree h t" and "height t < fuel"
  shows "Selector_queryNodes fuel h (Selector (Some (SimpleSelector foo None)) None)
           (Single (root t)) True
         = Some (Inr (filter (\<lambda>r. kind (node_at h r) = foo) (preorder t)))"
proof -
  let ?sel = "Selector (Some (SimpleSelector foo None)) None"
  let ?P = "\<lambda>r. kind (node_at h r) = foo"
  have "Selector_queryNodes fuel h ?sel (Single (root t)) True
          = handleRecursiveChild fuel h (root t) (push_if_match h ?sel) ([] @ filter ?P [root t])"
    unfolding Selector_queryNodes_def Selector_queryNodes_single_def relationship_set_def
    by (simp only: node_or_nodes.case relationship.simps option.case if_False if_True
        push_if_match_type sum.case)
  also have "\<dots> = Some (Inr (([] @ filter ?P [root t]) @ filter ?P (tl (preorder t))))"
    using assms by (intro handleRecursiveChild_tree push_if_match_type)
  also have "([] @ filter ?P [root t]) @ filter ?P (tl (preorder t)) = filter ?P (preorder t)"
    by (simp only: append_Nil filter_preorder)
  finally show ?thesis .
qed

theorem type_selector_preorder_witness:
  "holds_tree sample_store sample_tree \<and> height sample_tree < 3
   \<and> Selector_queryNodes 3 sample_store (Selector (Some (SimpleSelector ''Foo'' None)) None)
        (Single 0) True
       = Some (Inr [1, 4, 3])"
proof -
  have a: "holds_tree sample_store sample_tree"
    by code_simp
  have b: "height sample_tree < 3"
    by code_simp
  have c: "root sample_tree = 0"
    by code_simp
  have d: "filter (\<lambda>r. kind (node_at sample_store r) = ''Foo'') (preorder sample_tree) = [1, 4, 3]"
    by code_simp
  from type_selector_preorder [OF a b, of "''Foo''"] a b show ?thesis
    by (simp only: c d simp_thms)
qed

lemma getNextSibling_before:
  "node \<notin> set before \<Longrightarrow>
   forEach before (getNextSibling_callback node) (False, None) = Inr (False, None)"
  by (induction before) (auto simp: getNextSibling_callback_def)

lemma getNextSibling_found:
  "forEach cs (getNextSibling_callback node) (matched, Some x) = Inr (matched, Some x)"
  by (induction cs) (auto simp: getNextSibling_callback_def)

lemma getNextSibling_after:
  "forEach after (getNextSibling_callback node) (True, None)
     = Inr (True, case after of [] \<Rightarrow> None | s # rest \<Rightarrow> Some s)"
  by (cases after) (auto simp: getNextSibling_callback_def getNextSibling_found)

lemma getNextSibling_result:
  assumes "parent (node_at h node) = Some p"
    and "children (node_at h p) = before @ node # after"
    and "node \<notin> set before"
  shows "getNextSibling h node = Inr (case after of [] \<Rightarrow> None | s # rest \<Rightarrow> Some s)"
proof -
  have "forEach (node # after) (getNextSibling_callback node) (False, None)
          = forEach after (getNextSibling_callback node) (True, None)"
    by (simp add: getNextSibling_callback_def)
  then show ?thesis
    using assms
    by (simp add: getNextSibling_def forEachChild_def forEach_append getNextSibling_before
        getNextSibling_after del: forEach.simps)
qed

text \<open>
  Claim C4: for a node with a parent, among whose children it occurs (first) after
  \<open>before\<close> and in front of \<open>after\<close>, the selector \<^verbatim>\<open>+ .Foo\<close> returns the first node of
  \<open>after\<close> if there is one and its kind is \<^verbatim>\<open>Foo\<close>, and nothing otherwise; so at most
  one node.
\<close>

theorem adjacent_sibling_selector:
  assumes "parent (node_at h node) = Some p"
    and "children (node_at h p) = before @ node # after"
    and "node \<notin> set before"
  shows "Selector_queryNodes fuel h (Selector (Some (SimpleSelector foo None)) (Some ''+''))
           (Single node) descendantMatch
         = Some (Inr (case after of
                        [] \<Rightarrow> []
                      | s # rest \<Rightarrow> if kind (node_at h s) = foo then [s] else []))"
  by (cases after)
    (simp_all add: Selector_queryNodes_def Selector_queryNodes_single_def relationship_set_def
      findNodesByRelationship_def getNextSibling_result [OF assms] push_if_match_type
      del: Selector_match.simps)

theorem adjacent_sibling_selector_witness:
  "parent (node_at sample_store 1) = Some 0
   \<and> children (node_at sample_store 0) = [] @ 1 # [2, 3]
   \<and> 1 \<notin> set ([] :: ref list)
   \<and> Selector_queryNodes 0 sample_store (Selector (Some (SimpleSelector ''Bar'' None)) (Some ''+''))
        (Single 1) True
       = Some (Inr [2])"
proof -
  have a: "parent (node_at sample_store 1) = Some 0"
    by code_simp
  have b: "children (node_at sample_store 0) = [] @ 1 # [2, 3]"
    by code_simp
  have c: "1 \<notin> set ([] :: ref list)"
    by simp
  have d: "kind (node_at sample_store 2) = ''Bar''"
    by code_simp
  from adjacent_sibling_selector [OF a b c, of 0 "''Bar''" True] a b c show ?thesis
    by (simp only: d list.case if_True simp_thms)
qed

lemma handleSiblings_before:
  "node \<notin> set before \<Longrightarrow>
   forEach before (handleSiblings_callback node handler) (False, s) = Inr (False, s)"
  by (induction before) (auto simp: handleSiblings_callback_def)

lemma handleSiblings_after:
  assumes "\<And>c s. handler c s = Inr (s @ filter P [c])"
  shows "forEach after (handleSiblings_callback node handler) (True, s)
           = Inr (True, s @ filter P after)"
  by (induction after arbitrary: s) (simp_all add: handleSiblings_callback_def assms)

lemma handleSiblings_result:
  assumes "\<And>c s. handler c s = Inr (s @ filter P [c])"
    and "parent (node_at h node) = Some p"
    and "children (node_at h p) = before @ node # after"
    and "node \<notin> set before"
  shows "handleSiblings h node handler s = Inr (s @ filter P after)"
proof -
  have "forEach (node # after) (handleSiblings_callback node handler) (False, s)
          = forEach after (handleSiblings_callback node handler) (True, s)"
    by (simp add: handleSiblings_callback_def)
  then show ?thesis
    using assms(2-4)
    by (simp add: handleSiblings_def forEachChild_def forEach_append handleSiblings_before
        handleSiblings_after [of handler P, OF assms(1)] del: forEach.simps)
qed

text \<open>
  Claim C5: for a node with a parent, among whose children it occurs (first) after
  \<open>before\<close> and in front of \<open>after\<close>, the selector \<^verbatim>\<open>~ .Foo\<close> returns the nodes of
  \<open>after\<close> whose kind is \<^verbatim>\<open>Foo\<close>, in the parent's order.
\<close>

theorem general_sibling_selector:
  assumes "parent (node_at h node) = Some p"
    and "children (node_at h p) = before @ node # after"
    and "node \<notin> set before"
  shows "Selector_queryNodes fuel h (Selector (Some (SimpleSelector foo None)) (Some ''~''))
           (Single node) descendantMatch
         = Some (Inr (filter (\<lambda>r. kind (node_at h r) = foo) after))"
proof -
  let ?sel = "Selector (Some (SimpleSelector foo None)) (Some ''~'')"
  have "handleSiblings h node (push_if_match h ?sel) []
          = Inr ([] @ filter (\<lambda>r. kind (node_at h r) = foo) after)"
    using assms by (intro handleSiblings_result push_if_match_type)
  then show ?thesis
    by (simp add: Selector_queryNodes_def Selector_queryNodes_single_def relationship_set_def
        findNodesByRelationship_def del: Selector_match.simps)
qed

theorem general_sibling_selector_witness:
  "parent (node_at sample_store 1) = Some 0
   \<and> children (node_at sample_store 0) = [] @ 1 # [2, 3]
   \<and> 1 \<notin> set ([] :: ref list)
   \<and> Selector_queryNodes 0 sample_store (Selector (Some (SimpleSelector ''Foo'' None)) (Some ''~''))
        (Single 1) True
       = Some (Inr [3])"
proof -
  have a: "parent (node_at sample_store 1) = Some 0"
    by code_simp
  have b: "children (node_at sample_store 0) = [] @ 1 # [2, 3]"
    by code_simp
  have c: "1 \<notin> set ([] :: ref list)"
    by simp
  have d: "filter (\<lambda>r. kind (node_at sample_store r) = ''Foo'') [2, 3] = [3]"
    by code_simp
  from general_sibling_selector [OF a b c, of 0 "''Foo''" True] a b c show ?thesis
    by (simp only: d simp_thms)
qed

end
